theory Spec2Isabelle
  imports Main "HOL-Library.Word"
begin

section \<open>The rowcache invalidator (go/vt/tabletserver/rowcache\_invalidator.go)\<close>

text \<open>
  A shallow embedding of \<^verbatim>\<open>RowcacheInvalidator\<close>. The invalidator tails the binlog
  event stream and tells the query engine which rowcache entries to drop. Everything the
  Go code does beyond returning a value is explicit here: the fields of the struct and the
  package-level counters are a record that each function takes and returns, log lines,
  calls to the query engine, stream opens and sleeps are appended to lists in that record,
  and a panic is a value next to the state (\<open>None\<close>: the function returned normally).
\<close>

subsection \<open>Data\<close>

text \<open>
  \<^verbatim>\<open>myproto.GTID\<close> is an interface; only its identity and its string rendering
  matter here, so a GTID is its rendering. A nil interface value is \<open>None\<close>.
\<close>

type_synonym GTID = string

text \<open>
  \<^verbatim>\<open>blproto.StreamEvent\<close>, with the fields this file reads. \<open>'r\<close> is the type of
  the raw primary-key values (\<^verbatim>\<open>interface{}\<close> in Go). \<^verbatim>\<open>Timestamp\<close> is an int64.
\<close>

record 'r StreamEvent =
  Category :: string
  TableName :: string
  PKColNames :: "string list"
  PKValues :: "'r list list"
  Sql :: string
  Timestamp :: "64 word"
  GTIDField :: "GTID option"

text \<open>
  \<^verbatim>\<open>*TabletError\<close>. The error kinds are declared elsewhere in the package; this file
  only names \<^verbatim>\<open>FATAL\<close>.
\<close>

datatype error_type = FATAL | OtherErrorType nat

datatype TabletError = NewTabletError error_type string

text \<open>
  The value a panic carries: nil, a \<^verbatim>\<open>*TabletError\<close>, or anything else (a runtime
  error, a string, ...), kept as its rendering. The panic in flight is a
  \<open>panic_value option\<close>, with \<open>None\<close> when nothing panicked. \<^verbatim>\<open>panic(nil)\<close> is a
  panic like any other while it unwinds; the Go releases this code was written for
  (before 1.21) hand its nil value to \<^verbatim>\<open>recover()\<close> unchanged.
\<close>

datatype panic_value = PanicNil | PanicTabletError TabletError | PanicOther string

text \<open>\<^verbatim>\<open>tb.Stack(n)\<close>: the stack trace, skipping \<open>n\<close> frames.\<close>

datatype stack_trace = tb_Stack nat

text \<open>
  The error value of the retry loop: what \<^verbatim>\<open>evs.Stream\<close> returned, or the error
  that the loop's own \<^verbatim>\<open>recover\<close> builds with
  \<^verbatim>\<open>fmt.Errorf("%v: uncaught panic:\n%s", x, tb.Stack(4))\<close>.
\<close>

datatype error = StreamError string | UncaughtPanicError panic_value stack_trace

text \<open>One constructor per logging call of the file, with the arguments of the call.\<close>

datatype 'r log_entry =
    Infof_Starting string string string nat
      \<comment> \<open>"Rowcache invalidator starting, dbname: %s, path: %s, logfile: %s, position: %d"\<close>
  | Infof_AlreadyRunning
      \<comment> \<open>"Rowcache invalidator already running"\<close>
  | Infof_NotRunning
      \<comment> \<open>"Rowcache is not running"\<close>
  | Errorf_Retrying error
      \<comment> \<open>"binlog.ServeUpdateStream returned err '%v', retrying in 1 second."\<close>
  | Infof_Stopped
      \<comment> \<open>"Rowcache invalidator stopped"\<close>
  | Errorf_UncaughtPanic "'r StreamEvent" panic_value stack_trace
      \<comment> \<open>"Uncaught panic for %+v:\n%v\n%s", event, x, tb.Stack(4)\<close>
  | Errorf_TabletError TabletError "'r StreamEvent"
      \<comment> \<open>"%v: %+v", terr, event\<close>
  | Infof_DDL string
      \<comment> \<open>"DDL invalidation: %s", event.Sql\<close>
  | Errorf_UnknownEvent "'r StreamEvent"
      \<comment> \<open>"unknown event: %#v", event\<close>
  | Errorf_BuildKey "'r StreamEvent" string
      \<comment> \<open>"Error building invalidation key for %#v: '%v'", event, err\<close>

text \<open>The three entry points of the query engine that the invalidator calls.\<close>

datatype cache_call =
    InvalidateForDDL string
  | InvalidateForDml string "string list"
  | InvalidateForUnrecognized string

text \<open>\<^verbatim>\<open>sync2.ServiceManager\<close>'s state.\<close>

datatype service_state = SERVICE_STOPPED | SERVICE_RUNNING

text \<open>
  \<^verbatim>\<open>*mysqlctl.Mysqld\<close>, as far as \<^verbatim>\<open>Open\<close> looks at it: the outcome of
  \<^verbatim>\<open>MasterStatus()\<close> (an error, or the replication position) and
  \<^verbatim>\<open>Cnf().BinLogPath\<close>.
\<close>

record ReplicationPosition =
  MasterLogFile :: string
  MasterLogPosition :: nat
  MasterLogGTIDField :: "GTID option"

record Mysqld =
  MasterStatus :: "string + ReplicationPosition"
  BinLogPath :: string

text \<open>
  The invalidator's fields (\<^verbatim>\<open>dbname\<close>, \<^verbatim>\<open>mysqld\<close>, \<^verbatim>\<open>evs\<close>,
  \<^verbatim>\<open>lagSeconds\<close>, \<^verbatim>\<open>gtid\<close>, the state of \<^verbatim>\<open>svm\<close>), the package-level
  \<^verbatim>\<open>internalErrors\<close> counters (int64 per name, zero when never added to), and the
  record of what the code did to the outside: log lines, calls to the query engine, the
  start position of every \<^verbatim>\<open>evs.Stream\<close> call, the sleeps in seconds, the number of
  goroutines \<^verbatim>\<open>svm.Go\<close> launched, and the calls of \<^verbatim>\<open>evs.Stop\<close> and
  \<^verbatim>\<open>svm.Stop\<close>. \<^verbatim>\<open>evs\<close> is a pointer: \<open>None\<close> is nil, \<open>Some dbname\<close> a
  streamer made by \<^verbatim>\<open>binlog.NewEventStreamer(dbname, mysqld)\<close>.
\<close>

record 'r rci =
  svm :: service_state
  dbname :: string
  mysqld :: "Mysqld option"
  evs :: "string option"
  lagSeconds :: "64 word"
  gtid :: "GTID option"
  internalErrors :: "string \<Rightarrow> 64 word"
  logs :: "'r log_entry list"
  cache_calls :: "cache_call list"
  stream_opens :: "GTID option list"
  sleeps :: "nat list"
  launched :: nat
  evs_Stop_calls :: nat
  svm_Stop_calls :: nat

text \<open>
  What the file calls and does not define: \<^verbatim>\<open>sqltypes.BuildValue\<close> (a typed
  value \<open>'v\<close> or an error), \<^verbatim>\<open>buildKey\<close>, and the query engine. A call to the query
  engine may panic; whether it does may depend on the calls made to it before, so
  \<open>qe\<close> takes the calls so far and the call, and gives the panic value if it panics.
\<close>

record ('r, 'v) deps =
  BuildValue :: "'r \<Rightarrow> string + 'v"
  buildKey :: "'v list \<Rightarrow> string"
  qe :: "cache_call list \<Rightarrow> cache_call \<Rightarrow> panic_value option"

subsection \<open>Position tracker, counters, log\<close>

definition GetGTID :: "'r rci \<Rightarrow> GTID option" where
  "GetGTID r = gtid r"

definition GetGTIDString :: "'r rci \<Rightarrow> string" where
  "GetGTIDString r = (case GetGTID r of None \<Rightarrow> ''<nil>'' | Some g \<Rightarrow> g)"

definition SetGTID :: "GTID option \<Rightarrow> 'r rci \<Rightarrow> 'r rci" where
  "SetGTID g r = r\<lparr>gtid := g\<rparr>"

text \<open>\<^verbatim>\<open>internalErrors.Add(name, n)\<close>: int64 addition, which wraps.\<close>

definition internalErrors_Add :: "string \<Rightarrow> 64 word \<Rightarrow> 'r rci \<Rightarrow> 'r rci" where
  "internalErrors_Add name n r =
     r\<lparr>internalErrors := (internalErrors r)(name := internalErrors r name + n)\<rparr>"

definition log_append :: "'r log_entry \<Rightarrow> 'r rci \<Rightarrow> 'r rci" where
  "log_append l r = r\<lparr>logs := logs r @ [l]\<rparr>"

text \<open>
  A call to the query engine: the call is recorded, and the engine says whether it panics.
\<close>

definition call_qe :: "('r, 'v) deps \<Rightarrow> cache_call \<Rightarrow> 'r rci \<Rightarrow> 'r rci \<times> panic_value option" where
  "call_qe d c r = (r\<lparr>cache_calls := cache_calls r @ [c]\<rparr>, qe d (cache_calls r) c)"

subsection \<open>handleDmlEvent\<close>

text \<open>
  The inner loop over one primary-key tuple: each raw value is built into a typed value
  and appended to \<^verbatim>\<open>sqlTypeKeys\<close>; the first error stops it.
\<close>

fun build_tuple :: "('r, 'v) deps \<Rightarrow> 'r list \<Rightarrow> 'v list \<Rightarrow> string + 'v list" where
  "build_tuple d [] sqlTypeKeys = Inr sqlTypeKeys"
| "build_tuple d (pkVal # pkTuple) sqlTypeKeys =
     (case BuildValue d pkVal of
        Inl err \<Rightarrow> Inl err
      | Inr key \<Rightarrow> build_tuple d pkTuple (sqlTypeKeys @ [key]))"

text \<open>
  The outer loop over \<^verbatim>\<open>event.PKValues\<close>. \<^verbatim>\<open>sqlTypeKeys\<close> is one buffer for all
  tuples, cut back with \<^verbatim>\<open>sqlTypeKeys[:0]\<close> at the start of each; \<^verbatim>\<open>keys\<close> collects
  the non-empty keys. \<open>Inl err\<close> is the early return on a build error.
\<close>

fun dml_loop :: "('r, 'v) deps \<Rightarrow> 'r list list \<Rightarrow> string list \<Rightarrow> 'v list \<Rightarrow> string + string list" where
  "dml_loop d [] keys sqlTypeKeys = Inr keys"
| "dml_loop d (pkTuple # rest) keys sqlTypeKeys =
     (case build_tuple d pkTuple (take 0 sqlTypeKeys) of
        Inl err \<Rightarrow> Inl err
      | Inr sqlTypeKeys' \<Rightarrow>
          (let invalidateKey = buildKey d sqlTypeKeys'
           in dml_loop d rest
                (if invalidateKey \<noteq> '''' then keys @ [invalidateKey] else keys)
                sqlTypeKeys'))"

definition handleDmlEvent ::
  "('r, 'v) deps \<Rightarrow> 'r StreamEvent \<Rightarrow> 'r rci \<Rightarrow> 'r rci \<times> panic_value option" where
  "handleDmlEvent d event r =
     (let table = TableName event
      in case dml_loop d (PKValues event) [] [] of
           Inl err \<Rightarrow>
             (internalErrors_Add ''Invalidation'' 1 (log_append (Errorf_BuildKey event err) r),
              None)
         | Inr keys \<Rightarrow> call_qe d (InvalidateForDml table keys) r)"

subsection \<open>processEvent and its deferred handler\<close>

text \<open>
  \<^verbatim>\<open>recover()\<close> in a deferred function: it returns the value of the panic in flight
  and stops the panicking. The value is an interface value, nil (\<open>None\<close>) when nothing
  panicked and also when the panic carried nil. The pair is the value returned and the
  panic still in flight afterwards.
\<close>

definition recover :: "panic_value option \<Rightarrow> panic_value option \<times> panic_value option" where
  "recover panicking = (if panicking = Some PanicNil then None else panicking, None)"

text \<open>
  \<^verbatim>\<open>handleInvalidationError\<close>: all it does stands under \<^verbatim>\<open>x != nil\<close>. A value that
  is not a \<^verbatim>\<open>*TabletError\<close> goes to the \<^verbatim>\<open>Panic\<close> branch, a \<^verbatim>\<open>*TabletError\<close>
  to the \<^verbatim>\<open>Invalidation\<close> branch.
\<close>

definition handleInvalidationError ::
  "'r StreamEvent \<Rightarrow> 'r rci \<times> panic_value option \<Rightarrow> 'r rci \<times> panic_value option" where
  "handleInvalidationError event rp =
     (let (x, panicking) = recover (snd rp); r = fst rp
      in case x of
           None \<Rightarrow> (r, panicking)
         | Some v \<Rightarrow>
             (case v of
                PanicTabletError terr \<Rightarrow>
                  (internalErrors_Add ''Invalidation'' 1
                     (log_append (Errorf_TabletError terr event) r),
                   panicking)
              | _ \<Rightarrow>
                  (internalErrors_Add ''Panic'' 1
                     (log_append (Errorf_UncaughtPanic event v (tb_Stack 4)) r),
                   panicking)))"

text \<open>
  The body of \<^verbatim>\<open>processEvent\<close>, up to its return or to the panic of a call.
  \<open>now\<close> is what \<^verbatim>\<open>time.Now().Unix()\<close> reads on the last line; the subtraction is
  int64 and wraps.
  \<open>set_lag\<close> is the last line itself, and \<open>then_lag\<close> says when it is reached: after a
  case of the switch that returned, not after one that panicked.
\<close>

definition set_lag :: "64 word \<Rightarrow> 'r StreamEvent \<Rightarrow> 'r rci \<Rightarrow> 'r rci" where
  "set_lag now event r = r\<lparr>lagSeconds := now - Timestamp event\<rparr>"

definition then_lag ::
  "64 word \<Rightarrow> 'r StreamEvent \<Rightarrow> 'r rci \<times> panic_value option \<Rightarrow> 'r rci \<times> panic_value option" where
  "then_lag now event rp =
     (case snd rp of
        Some x \<Rightarrow> rp
      | None \<Rightarrow> (set_lag now event (fst rp), None))"

definition processEvent_body ::
  "('r, 'v) deps \<Rightarrow> 64 word \<Rightarrow> 'r StreamEvent \<Rightarrow> 'r rci \<Rightarrow> 'r rci \<times> panic_value option" where
  "processEvent_body d now event r =
     (if Category event = ''DDL'' then
        then_lag now event
          (call_qe d (InvalidateForDDL (Sql event)) (log_append (Infof_DDL (Sql event)) r))
      else if Category event = ''DML'' then
        then_lag now event (handleDmlEvent d event r)
      else if Category event = ''ERR'' then
        then_lag now event (call_qe d (InvalidateForUnrecognized (Sql event)) r)
      else if Category event = ''POS'' then
        then_lag now event (SetGTID (GTIDField event) r, None)
      else
        (internalErrors_Add ''Invalidation'' 1 (log_append (Errorf_UnknownEvent event) r),
         None))"

text \<open>
  \<^verbatim>\<open>processEvent\<close>: the body, then the deferred \<^verbatim>\<open>handleInvalidationError(event)\<close>,
  which runs on return and on panic alike.
\<close>

definition processEvent ::
  "('r, 'v) deps \<Rightarrow> 64 word \<Rightarrow> 'r StreamEvent \<Rightarrow> 'r rci \<Rightarrow> 'r rci \<times> panic_value option" where
  "processEvent d now event r = handleInvalidationError event (processEvent_body d now event r)"

subsection \<open>run: the retry loop around the event stream\<close>

text \<open>
  The callback handed to \<^verbatim>\<open>evs.Stream\<close>: it processes the event and returns nil.
  The triple is the state, the panic in flight and the error returned.
\<close>

definition sendReply ::
  "('r, 'v) deps \<Rightarrow> 64 word \<Rightarrow> 'r StreamEvent \<Rightarrow> 'r rci
     \<Rightarrow> 'r rci \<times> panic_value option \<times> error option" where
  "sendReply d now reply r =
     (let (r', panicking) = processEvent d now reply r in (r', panicking, None))"

text \<open>
  Modelled from the spec: \<^verbatim>\<open>binlog.EventStreamer.Stream\<close> is not part of this file.
  The spec gives the source as \<^verbatim>\<open>openStream(startPosition, onEvent)\<close>, which hands
  the events to the callback in order and blocks until the stream ends or fails. What a
  session delivers and how it ends is left open: a \<open>source\<close> gives, for the \<open>n\<close>-th call
  and its start position, the events (each with the clock reading at the time it is
  processed) and the ending: nil, an error, or a panic inside the streamer. A panic or
  an error of the callback ends the call at once.
\<close>

datatype stream_end = EndNil | EndError string | EndPanic panic_value

type_synonym 'r source =
  "nat \<Rightarrow> GTID option \<Rightarrow> ('r StreamEvent \<times> 64 word) list \<times> stream_end"

fun deliver ::
  "('r, 'v) deps \<Rightarrow> ('r StreamEvent \<times> 64 word) list \<Rightarrow> stream_end \<Rightarrow> 'r rci
     \<Rightarrow> 'r rci \<times> panic_value option \<times> error option" where
  "deliver d [] ending r =
     (case ending of
        EndNil \<Rightarrow> (r, None, None)
      | EndError e \<Rightarrow> (r, None, Some (StreamError e))
      | EndPanic x \<Rightarrow> (r, Some x, None))"
| "deliver d ((reply, now) # rest) ending r =
     (case sendReply d now reply r of
        (r', Some x, _) \<Rightarrow> (r', Some x, None)
      | (r', None, Some err) \<Rightarrow> (r', None, Some err)
      | (r', None, None) \<Rightarrow> deliver d rest ending r')"

definition evs_Stream ::
  "('r, 'v) deps \<Rightarrow> 'r source \<Rightarrow> nat \<Rightarrow> GTID option \<Rightarrow> 'r rci
     \<Rightarrow> 'r rci \<times> panic_value option \<times> error option" where
  "evs_Stream d src n start r =
     (let (replies, ending) = src n start
      in deliver d replies ending (r\<lparr>stream_opens := stream_opens r @ [start]\<rparr>))"

text \<open>
  One pass of the loop body's inner function: the stream is opened at \<^verbatim>\<open>rci.GetGTID()\<close>,
  and the deferred function sets the result \<^verbatim>\<open>inner\<close> to an error when
  \<^verbatim>\<open>recover()\<close> gives it a value that is not nil. When the stream call panicked, no
  \<^verbatim>\<open>return\<close> has assigned \<^verbatim>\<open>inner\<close>, which is then still nil.
\<close>

definition run_attempt ::
  "('r, 'v) deps \<Rightarrow> 'r source \<Rightarrow> nat \<Rightarrow> 'r rci \<Rightarrow> 'r rci \<times> error option" where
  "run_attempt d src n r =
     (let (r', panicking, inner) = evs_Stream d src n (GetGTID r) r;
          (x, panicking') = recover panicking
      in case x of
           Some v \<Rightarrow> (r', Some (UncaughtPanicError v (tb_Stack 4)))
         | None \<Rightarrow> (r', inner))"

definition time_Sleep :: "nat \<Rightarrow> 'r rci \<Rightarrow> 'r rci" where
  "time_Sleep seconds r = r\<lparr>sleeps := sleeps r @ [seconds]\<rparr>"

text \<open>
  \<^verbatim>\<open>run\<close>. The loop has no bound of its own (it ends only when a stream call returns
  nil), so the model counts iterations down from \<open>fuel\<close>: \<open>None\<close> means the loop was
  still retrying when the fuel ran out. \<open>n\<close> numbers the stream calls. During
  \<^verbatim>\<open>run\<close> the field \<^verbatim>\<open>evs\<close> is never nil: the worker sets it before and clears
  it after.
\<close>

fun run :: "nat \<Rightarrow> ('r, 'v) deps \<Rightarrow> 'r source \<Rightarrow> nat \<Rightarrow> 'r rci \<Rightarrow> 'r rci option" where
  "run 0 d src n r = None"
| "run (Suc fuel) d src n r =
     (case run_attempt d src n r of
        (r', None) \<Rightarrow> Some (log_append Infof_Stopped r')
      | (r', Some err) \<Rightarrow>
          run fuel d src (Suc n)
            (time_Sleep 1
               (internalErrors_Add ''Invalidation'' 1
                  (log_append (Errorf_Retrying err) r'))))"

subsection \<open>Open and Close\<close>

text \<open>
  Modelled from the spec: \<^verbatim>\<open>sync2.ServiceManager.Go\<close> is not part of this file. The spec
  has a service state Stopped or Running, of which at most one instance runs: opening
  while Running is a no-op, opening while Stopped makes the state Running and launches
  exactly one worker. The result says whether the worker was launched.
\<close>

definition svm_Go :: "'r rci \<Rightarrow> 'r rci \<times> bool" where
  "svm_Go r =
     (if svm r = SERVICE_STOPPED
      then (r\<lparr>svm := SERVICE_RUNNING, launched := launched r + 1\<rparr>, True)
      else (r, False))"

text \<open>
  \<^verbatim>\<open>Open\<close>, up to the launch of the worker: the goroutine that \<^verbatim>\<open>svm.Go\<close> starts
  runs \<open>service\<close> below on its own, and \<^verbatim>\<open>Open\<close> does not wait for it.
\<close>

definition Open :: "string \<Rightarrow> Mysqld \<Rightarrow> 'r rci \<Rightarrow> 'r rci \<times> panic_value option" where
  "Open name m r =
     (case MasterStatus m of
        Inl err \<Rightarrow>
          (r, Some (PanicTabletError (NewTabletError FATAL
                (''Rowcache invalidator aborting: cannot determine replication position: '' @ err))))
      | Inr rp \<Rightarrow>
          if BinLogPath m = '''' then
            (r, Some (PanicTabletError (NewTabletError FATAL
                  ''Rowcache invalidator aborting: binlog path not specified'')))
          else
            (let (r', ok) = svm_Go r
             in if ok then
                  (log_append
                     (Infof_Starting name (BinLogPath m) (MasterLogFile rp) (MasterLogPosition rp))
                     r',
                   None)
                else (log_append Infof_AlreadyRunning r', None)))"

text \<open>
  The function that \<^verbatim>\<open>Open\<close> hands to \<^verbatim>\<open>svm.Go\<close>: it stores the database name,
  the mysqld handle and a new event streamer, seeds the position, runs the loop and clears
  \<^verbatim>\<open>evs\<close> when the loop has ended.
\<close>

definition service ::
  "nat \<Rightarrow> ('r, 'v) deps \<Rightarrow> 'r source \<Rightarrow> string \<Rightarrow> Mysqld \<Rightarrow> ReplicationPosition
     \<Rightarrow> 'r rci \<Rightarrow> 'r rci option" where
  "service fuel d src name m rp r =
     map_option (\<lambda>r'. r'\<lparr>evs := None\<rparr>)
       (run fuel d src 0
          (SetGTID (MasterLogGTIDField rp)
             (r\<lparr>dbname := name, mysqld := Some m, evs := Some name\<rparr>)))"

text \<open>
  \<^verbatim>\<open>Close\<close>. With no event streamer it logs and returns. Otherwise it calls
  \<^verbatim>\<open>evs.Stop()\<close> and then \<^verbatim>\<open>svm.Stop()\<close>, which blocks until the worker has
  ended; the two calls are counted, the wait itself is outside this model.
\<close>

definition Close :: "'r rci \<Rightarrow> 'r rci" where
  "Close r =
     (if evs r = None then log_append Infof_NotRunning r
      else (let r1 = r\<lparr>evs_Stop_calls := evs_Stop_calls r + 1\<rparr>
            in r1\<lparr>svm_Stop_calls := svm_Stop_calls r1 + 1\<rparr>))"

subsection \<open>Concrete inputs\<close>

text \<open>
  The invalidator as \<^verbatim>\<open>NewRowcacheInvalidator\<close> makes it: every field has its zero
  value, and nothing has been logged, called or counted yet.
\<close>

definition NewRowcacheInvalidator :: "string rci" where
  "NewRowcacheInvalidator =
     \<lparr>svm = SERVICE_STOPPED, dbname = '''', mysqld = None, evs = None, lagSeconds = 0,
      gtid = None, internalErrors = (\<lambda>_. 0), logs = [], cache_calls = [],
      stream_opens = [], sleeps = [], launched = 0, evs_Stop_calls = 0, svm_Stop_calls = 0\<rparr>"

text \<open>
  A stand-in for the collaborators, for running the model: raw and typed values are
  strings, the value \<open>''?''\<close> does not build, a key joins the values with a dot, and the
  query engine never panics.
\<close>

fun join_dot :: "string list \<Rightarrow> string" where
  "join_dot [] = ''''"
| "join_dot [v] = v"
| "join_dot (v # vs) = v @ ''.'' @ join_dot vs"

definition quiet_deps :: "(string, string) deps" where
  "quiet_deps =
     \<lparr>BuildValue = (\<lambda>v. if v = ''?'' then Inl ''unsupported bind variable type'' else Inr v),
      buildKey = join_dot,
      qe = (\<lambda>calls c. None)\<rparr>"

text \<open>The same with a query engine that panics with a \<^verbatim>\<open>*TabletError\<close> on every call.\<close>

definition failing_deps :: "(string, string) deps" where
  "failing_deps =
     quiet_deps\<lparr>qe := (\<lambda>calls c.
        Some (PanicTabletError (NewTabletError (OtherErrorType 0) ''DDL is not understood'')))\<rparr>"

text \<open>And with one that panics with something that is not a \<^verbatim>\<open>*TabletError\<close>.\<close>

definition crashing_deps :: "(string, string) deps" where
  "crashing_deps =
     quiet_deps\<lparr>qe := (\<lambda>calls c. Some (PanicOther ''runtime error: index out of range''))\<rparr>"

text \<open>And with one that calls \<^verbatim>\<open>panic(nil)\<close>.\<close>

definition nil_panic_deps :: "(string, string) deps" where
  "nil_panic_deps = quiet_deps\<lparr>qe := (\<lambda>calls c. Some PanicNil)\<rparr>"

definition event0 :: "string StreamEvent" where
  "event0 =
     \<lparr>Category = '''', TableName = '''', PKColNames = [], PKValues = [], Sql = '''',
      Timestamp = 40, GTIDField = None\<rparr>"

definition ddl_event :: "string StreamEvent" where
  "ddl_event = event0\<lparr>Category := ''DDL'', Sql := ''ALTER TABLE t ADD COLUMN x INT''\<rparr>"

definition dml_event :: "string StreamEvent" where
  "dml_event =
     event0\<lparr>Category := ''DML'', TableName := ''users'', PKColNames := [''id'', ''region''],
            PKValues := [[''1'', ''eu''], [], [''2'', ''us'']]\<rparr>"

definition bad_dml_event :: "string StreamEvent" where
  "bad_dml_event = dml_event\<lparr>PKValues := [[''1'', ''eu''], [''2'', ''?'']]\<rparr>"

definition pos_event :: "string StreamEvent" where
  "pos_event = event0\<lparr>Category := ''POS'', GTIDField := Some ''41983-7''\<rparr>"

definition unknown_event :: "string StreamEvent" where
  "unknown_event = event0\<lparr>Category := ''BEGIN''\<rparr>"

definition mysqld_ok :: Mysqld where
  "mysqld_ok =
     \<lparr>MasterStatus = Inr \<lparr>MasterLogFile = ''vt-bin.000001'', MasterLogPosition = 107,
                           MasterLogGTIDField = Some ''41983-1''\<rparr>,
      BinLogPath = ''/vt/bin-logs/vt-bin''\<rparr>"

definition mysqld_down :: Mysqld where
  "mysqld_down = mysqld_ok\<lparr>MasterStatus := Inl ''connection refused''\<rparr>"

definition mysqld_no_binlog :: Mysqld where
  "mysqld_no_binlog = mysqld_ok\<lparr>BinLogPath := ''''\<rparr>"

text \<open>
  A source for two stream calls: the first delivers a position event and fails, the second
  delivers a DDL event and ends with nil.
\<close>

definition flaky_source :: "string source" where
  "flaky_source n start =
     (if n = 0 then ([(pos_event, 100)], EndError ''connection lost'')
      else ([(ddl_event, 101)], EndNil))"

text \<open>
  A source whose first stream call delivers a position event and then panics inside the
  streamer, and whose later calls end with nil.
\<close>

definition crashing_source :: "string source" where
  "crashing_source n start =
     (if n = 0 then ([(pos_event, 100)], EndPanic (PanicOther ''runtime error: nil map''))
      else ([], EndNil))"

definition running_rci :: "string rci" where
  "running_rci =
     NewRowcacheInvalidator
       \<lparr>svm := SERVICE_RUNNING, dbname := ''vt_test'', mysqld := Some mysqld_ok,
        evs := Some ''vt_test'', gtid := Some ''41983-1'', launched := 1\<rparr>"

subsection \<open>The position a stream call leaves behind\<close>

text \<open>
  For stating what the loop resumes from: the position held after the events of a
  session, which is the position of the last \<^verbatim>\<open>POS\<close> event among them, and the
  position \<open>g\<close> held before when there is none.
\<close>

fun position_after :: "GTID option \<Rightarrow> ('r StreamEvent \<times> 64 word) list \<Rightarrow> GTID option" where
  "position_after g [] = g"
| "position_after g ((event, now) # rest) =
     position_after (if Category event = ''POS'' then GTIDField event else g) rest"

section \<open>Properties\<close>

subsection \<open>The loops of handleDmlEvent\<close>

lemma build_tuple_ok:
  "\<forall>v\<in>set t. BuildValue d v = Inr (f v) \<Longrightarrow> build_tuple d t buf = Inr (buf @ map f t)"
  by (induction t arbitrary: buf) auto

lemma build_tuple_isl:
  "isl (build_tuple d t buf) \<longleftrightarrow> (\<exists>v\<in>set t. isl (BuildValue d v))"
  by (induction t arbitrary: buf) (auto split: sum.splits)

lemma build_tuple_Inl:
  "build_tuple d t buf = Inl err \<Longrightarrow> \<exists>v\<in>set t. BuildValue d v = Inl err"
  by (induction t arbitrary: buf) (auto split: sum.splits)

lemma dml_loop_step:
  assumes "\<forall>v\<in>set t. BuildValue d v = Inr (f v)"
  shows "dml_loop d (t # rest) keys buf =
           dml_loop d rest
             (if buildKey d (map f t) \<noteq> '''' then keys @ [buildKey d (map f t)] else keys)
             (map f t)"
proof -
  have "build_tuple d t (take 0 buf) = Inr (map f t)"
    using build_tuple_ok [OF assms, of "take 0 buf"] by simp
  then show ?thesis by (simp add: Let_def)
qed

lemma dml_loop_ok:
  "\<forall>t\<in>set ts. \<forall>v\<in>set t. BuildValue d v = Inr (f v) \<Longrightarrow>
   dml_loop d ts keys buf =
     Inr (keys @ filter (\<lambda>k. k \<noteq> '''') (map (\<lambda>t. buildKey d (map f t)) ts))"
proof (induction ts arbitrary: keys buf)
  case Nil
  show ?case by simp
next
  case (Cons t ts)
  from Cons.prems have t: "\<forall>v\<in>set t. BuildValue d v = Inr (f v)"
    and ts: "\<forall>t\<in>set ts. \<forall>v\<in>set t. BuildValue d v = Inr (f v)"
    by simp_all
  show ?case
    unfolding dml_loop_step [OF t] by (simp add: Cons.IH [OF ts])
qed

lemma dml_loop_isl:
  "isl (dml_loop d ts keys buf) \<longleftrightarrow> (\<exists>t\<in>set ts. \<exists>v\<in>set t. isl (BuildValue d v))"
proof (induction ts arbitrary: keys buf)
  case Nil
  show ?case by simp
next
  case (Cons t ts)
  show ?case
  proof (cases "build_tuple d t (take 0 buf)")
    case (Inl err)
    then have "isl (build_tuple d t (take 0 buf))" by simp
    then have "\<exists>v\<in>set t. isl (BuildValue d v)" by (simp add: build_tuple_isl)
    with Inl show ?thesis by auto
  next
    case (Inr vs)
    then have "\<not> isl (build_tuple d t (take 0 buf))" by simp
    then have "\<not> (\<exists>v\<in>set t. isl (BuildValue d v))" by (simp add: build_tuple_isl)
    with Inr show ?thesis by (auto simp: Let_def Cons.IH)
  qed
qed

lemma dml_loop_Inl:
  "dml_loop d ts keys buf = Inl err \<Longrightarrow> \<exists>t\<in>set ts. \<exists>v\<in>set t. BuildValue d v = Inl err"
proof (induction ts arbitrary: keys buf)
  case Nil
  then show ?case by simp
next
  case (Cons t ts)
  show ?case
  proof (cases "build_tuple d t (take 0 buf)")
    case (Inl e)
    with Cons.prems have "e = err" by simp
    with Inl build_tuple_Inl [of d t "take 0 buf" err] show ?thesis by auto
  next
    case (Inr vs)
    with Cons.prems obtain keys' where "dml_loop d ts keys' vs = Inl err"
      by (auto simp: Let_def split: if_splits)
    from Cons.IH [OF this] show ?thesis by auto
  qed
qed

lemma dml_loop_prefix:
  assumes "\<forall>u\<in>set pre. \<forall>v\<in>set u. BuildValue d v = Inr (f v)"
  shows "dml_loop d (pre @ ts) keys buf =
           dml_loop d ts
             (keys @ filter (\<lambda>k. k \<noteq> '''') (map (\<lambda>u. buildKey d (map f u)) pre))
             (if pre = [] then buf else map f (last pre))"
  using assms
proof (induction pre arbitrary: keys buf)
  case Nil
  show ?case by simp
next
  case (Cons u pre)
  from Cons.prems have u: "\<forall>v\<in>set u. BuildValue d v = Inr (f v)"
    and pre: "\<forall>u\<in>set pre. \<forall>v\<in>set u. BuildValue d v = Inr (f v)"
    by simp_all
  show ?case
    using dml_loop_step [OF u, of "pre @ ts" keys buf] Cons.IH [OF pre]
    by (cases "pre = []") simp_all
qed

lemma handleDmlEvent_Inl:
  "dml_loop d (PKValues event) [] [] = Inl err \<Longrightarrow>
   handleDmlEvent d event r =
     (r\<lparr>logs := logs r @ [Errorf_BuildKey event err],
        internalErrors := (internalErrors r)
          (''Invalidation'' := internalErrors r ''Invalidation'' + 1)\<rparr>, None)"
  by (simp add: handleDmlEvent_def internalErrors_Add_def log_append_def Let_def)

lemma handleDmlEvent_Inr:
  "dml_loop d (PKValues event) [] [] = Inr keys \<Longrightarrow>
   handleDmlEvent d event r =
     (r\<lparr>cache_calls := cache_calls r @ [InvalidateForDml (TableName event) keys]\<rparr>,
      qe d (cache_calls r) (InvalidateForDml (TableName event) keys))"
  by (simp add: handleDmlEvent_def call_qe_def Let_def)

subsection \<open>What processEvent leaves alone\<close>

lemma handleInvalidationError_snd: "snd (handleInvalidationError event rp) = None"
  by (simp add: handleInvalidationError_def recover_def Let_def
        split: option.splits panic_value.splits)

lemma handleInvalidationError_Nil:
  "handleInvalidationError event (r, Some PanicNil) = (r, None)"
  by (simp add: handleInvalidationError_def recover_def Let_def)

lemma handleInvalidationError_None:
  "handleInvalidationError event (r, None) = (r, None)"
  by (simp add: handleInvalidationError_def recover_def Let_def)

lemma handleInvalidationError_TabletError:
  "handleInvalidationError event (r, Some (PanicTabletError terr)) =
     (r\<lparr>logs := logs r @ [Errorf_TabletError terr event],
        internalErrors := (internalErrors r)
          (''Invalidation'' := internalErrors r ''Invalidation'' + 1)\<rparr>, None)"
  by (simp add: handleInvalidationError_def recover_def internalErrors_Add_def log_append_def Let_def)

lemma handleInvalidationError_Other:
  "handleInvalidationError event (r, Some (PanicOther s)) =
     (r\<lparr>logs := logs r @ [Errorf_UncaughtPanic event (PanicOther s) (tb_Stack 4)],
        internalErrors := (internalErrors r)
          (''Panic'' := internalErrors r ''Panic'' + 1)\<rparr>, None)"
  by (simp add: handleInvalidationError_def recover_def internalErrors_Add_def log_append_def Let_def)

lemma handleInvalidationError_frame:
  "gtid (fst (handleInvalidationError event rp)) = gtid (fst rp)"
  "lagSeconds (fst (handleInvalidationError event rp)) = lagSeconds (fst rp)"
  "cache_calls (fst (handleInvalidationError event rp)) = cache_calls (fst rp)"
  "stream_opens (fst (handleInvalidationError event rp)) = stream_opens (fst rp)"
  "sleeps (fst (handleInvalidationError event rp)) = sleeps (fst rp)"
  by (simp_all add: handleInvalidationError_def recover_def internalErrors_Add_def Let_def
        log_append_def split: option.splits panic_value.splits)

lemma handleDmlEvent_frame:
  "gtid (fst (handleDmlEvent d event r)) = gtid r"
  "lagSeconds (fst (handleDmlEvent d event r)) = lagSeconds r"
  "stream_opens (fst (handleDmlEvent d event r)) = stream_opens r"
  "sleeps (fst (handleDmlEvent d event r)) = sleeps r"
  by (simp_all add: handleDmlEvent_def call_qe_def internalErrors_Add_def log_append_def Let_def
        split: sum.splits)

lemma then_lag_frame:
  "gtid (fst (then_lag now event rp)) = gtid (fst rp)"
  "cache_calls (fst (then_lag now event rp)) = cache_calls (fst rp)"
  "stream_opens (fst (then_lag now event rp)) = stream_opens (fst rp)"
  "sleeps (fst (then_lag now event rp)) = sleeps (fst rp)"
  "snd (then_lag now event rp) = snd rp"
  by (simp_all add: then_lag_def set_lag_def split: option.splits)

lemma then_lag_lagSeconds:
  "lagSeconds (fst (then_lag now event rp)) =
     (if snd rp = None then now - Timestamp event else lagSeconds (fst rp))"
  by (simp add: then_lag_def set_lag_def split: option.splits)

lemma processEvent_body_frame:
  "stream_opens (fst (processEvent_body d now event r)) = stream_opens r"
  "sleeps (fst (processEvent_body d now event r)) = sleeps r"
  by (simp_all add: processEvent_body_def then_lag_frame handleDmlEvent_frame call_qe_def
        SetGTID_def internalErrors_Add_def log_append_def)

lemma processEvent_body_gtid:
  "gtid (fst (processEvent_body d now event r)) =
     (if Category event = ''POS'' then GTIDField event else gtid r)"
  by (simp add: processEvent_body_def then_lag_frame handleDmlEvent_frame call_qe_def
        SetGTID_def internalErrors_Add_def log_append_def)

lemma processEvent_snd: "snd (processEvent d now event r) = None"
  by (simp add: processEvent_def handleInvalidationError_snd)

lemma processEvent_frame:
  "stream_opens (fst (processEvent d now event r)) = stream_opens r"
  "sleeps (fst (processEvent d now event r)) = sleeps r"
  by (simp_all add: processEvent_def handleInvalidationError_frame processEvent_body_frame)

lemma processEvent_gtid:
  "gtid (fst (processEvent d now event r)) =
     (if Category event = ''POS'' then GTIDField event else gtid r)"
  by (simp add: processEvent_def handleInvalidationError_frame processEvent_body_gtid)

subsection \<open>Keyed invalidation for DML events\<close>

text \<open>
  C2. For a DML event whose primary-key values all build (\<open>f\<close> names the typed value of
  each raw value), the query engine gets exactly one more call, 
  \<^verbatim>\<open>InvalidateForDml(event.TableName, keys)\<close>, where \<open>keys\<close> holds the key of each
  tuple in row order with the empty keys left out. This is so for \<^verbatim>\<open>handleDmlEvent\<close>
  and for the dispatch of the event through \<^verbatim>\<open>processEvent\<close>, and the call is made
  whatever \<open>keys\<close> is, the empty list included.
\<close>

theorem dml_event_one_keyed_call:
  assumes "\<forall>t\<in>set (PKValues event). \<forall>v\<in>set t. BuildValue d v = Inr (f v)"
  shows "cache_calls (fst (handleDmlEvent d event r)) =
           cache_calls r @
             [InvalidateForDml (TableName event)
                (filter (\<lambda>k. k \<noteq> '''') (map (\<lambda>t. buildKey d (map f t)) (PKValues event)))]
         \<and> (Category event = ''DML'' \<longrightarrow>
              cache_calls (fst (processEvent d now event r)) =
                cache_calls r @
                  [InvalidateForDml (TableName event)
                     (filter (\<lambda>k. k \<noteq> '''')
                        (map (\<lambda>t. buildKey d (map f t)) (PKValues event)))])"
proof -
  let ?keys = "filter (\<lambda>k. k \<noteq> '''') (map (\<lambda>t. buildKey d (map f t)) (PKValues event))"
  have loop: "dml_loop d (PKValues event) [] [] = Inr ?keys"
    using dml_loop_ok [OF assms, of "[]" "[]"] by simp
  have h: "cache_calls (fst (handleDmlEvent d event r)) =
             cache_calls r @ [InvalidateForDml (TableName event) ?keys]"
    by (simp add: handleDmlEvent_Inr [OF loop])
  have "cache_calls (fst (processEvent d now event r)) =
          cache_calls (fst (handleDmlEvent d event r))"
    if "Category event = ''DML''"
    using that
    by (simp add: processEvent_def processEvent_body_def handleInvalidationError_frame
          then_lag_frame)
  with h show ?thesis by simp
qed

theorem dml_event_one_keyed_call_witness:
  "PKValues dml_event = [[''1'', ''eu''], [], [''2'', ''us'']]
   \<and> BuildValue quiet_deps ''1'' = Inr ''1'' \<and> BuildValue quiet_deps ''eu'' = Inr ''eu''
   \<and> BuildValue quiet_deps ''2'' = Inr ''2'' \<and> BuildValue quiet_deps ''us'' = Inr ''us''
   \<and> Category dml_event = ''DML''
   \<and> cache_calls (fst (handleDmlEvent quiet_deps dml_event NewRowcacheInvalidator)) =
       [InvalidateForDml ''users'' [''1.eu'', ''2.us'']]
   \<and> cache_calls (fst (processEvent quiet_deps 100 dml_event NewRowcacheInvalidator)) =
       [InvalidateForDml ''users'' [''1.eu'', ''2.us'']]"
proof -
  have h: "\<forall>t\<in>set (PKValues dml_event). \<forall>v\<in>set t. BuildValue quiet_deps v = Inr v"
    by (simp add: dml_event_def event0_def quiet_deps_def)
  have c: "Category dml_event = ''DML''"
    by (simp add: dml_event_def event0_def)
  show ?thesis
    using c dml_event_one_keyed_call [OF h, of NewRowcacheInvalidator 100]
    by (simp add: dml_event_def event0_def quiet_deps_def NewRowcacheInvalidator_def)
qed

text \<open>
  C3. When some raw value of some primary-key tuple of the event does not build,
  \<^verbatim>\<open>handleDmlEvent\<close> logs the error of a value that failed together with the event, adds
  one to the \<^verbatim>\<open>Invalidation\<close> counter and returns without a panic; nothing else
  changes, so the query engine gets no call at all for this event.
\<close>

theorem dml_event_build_error_aborts:
  assumes "\<exists>t\<in>set (PKValues event). \<exists>v\<in>set t. isl (BuildValue d v)"
  shows "\<exists>err.
           (\<exists>t\<in>set (PKValues event). \<exists>v\<in>set t. BuildValue d v = Inl err)
           \<and> handleDmlEvent d event r =
               (r\<lparr>logs := logs r @ [Errorf_BuildKey event err],
                  internalErrors := (internalErrors r)
                    (''Invalidation'' := internalErrors r ''Invalidation'' + 1)\<rparr>, None)
           \<and> cache_calls (fst (handleDmlEvent d event r)) = cache_calls r"
proof -
  from assms have "isl (dml_loop d (PKValues event) [] [])"
    by (simp add: dml_loop_isl)
  then obtain err where loop: "dml_loop d (PKValues event) [] [] = Inl err"
    by (cases "dml_loop d (PKValues event) [] []") simp_all
  from dml_loop_Inl [OF loop] handleDmlEvent_Inl [OF loop, of r] show ?thesis
    by (intro exI [of _ err]) simp
qed

theorem dml_event_build_error_aborts_witness:
  "(\<exists>t\<in>set (PKValues bad_dml_event). \<exists>v\<in>set t. isl (BuildValue quiet_deps v))
   \<and> (\<exists>err. handleDmlEvent quiet_deps bad_dml_event NewRowcacheInvalidator =
         (NewRowcacheInvalidator
            \<lparr>logs := [Errorf_BuildKey bad_dml_event err],
             internalErrors := (\<lambda>_. 0)(''Invalidation'' := 1)\<rparr>, None))
   \<and> cache_calls (fst (handleDmlEvent quiet_deps bad_dml_event NewRowcacheInvalidator)) = []"
proof -
  have h: "\<exists>t\<in>set (PKValues bad_dml_event). \<exists>v\<in>set t. isl (BuildValue quiet_deps v)"
    by (simp add: bad_dml_event_def dml_event_def event0_def quiet_deps_def)
  from dml_event_build_error_aborts [OF h, of NewRowcacheInvalidator]
  obtain err where
    "handleDmlEvent quiet_deps bad_dml_event NewRowcacheInvalidator =
       (NewRowcacheInvalidator
          \<lparr>logs := logs NewRowcacheInvalidator @ [Errorf_BuildKey bad_dml_event err],
           internalErrors := (internalErrors NewRowcacheInvalidator)
             (''Invalidation'' := internalErrors NewRowcacheInvalidator ''Invalidation'' + 1)\<rparr>,
        None)"
    and "cache_calls (fst (handleDmlEvent quiet_deps bad_dml_event NewRowcacheInvalidator)) =
           cache_calls NewRowcacheInvalidator"
    by blast
  then have
    "\<exists>err. handleDmlEvent quiet_deps bad_dml_event NewRowcacheInvalidator =
         (NewRowcacheInvalidator
            \<lparr>logs := [Errorf_BuildKey bad_dml_event err],
             internalErrors := (\<lambda>_. 0)(''Invalidation'' := 1)\<rparr>, None)"
    and "cache_calls (fst (handleDmlEvent quiet_deps bad_dml_event NewRowcacheInvalidator)) = []"
    by (simp_all add: NewRowcacheInvalidator_def)
  with h show ?thesis by blast
qed

text \<open>
  C9. A DML event with a value that does not build still moves the lag metric:
  \<^verbatim>\<open>handleDmlEvent\<close> returns normally after the abort, so \<^verbatim>\<open>processEvent\<close> goes
  on to its last line and sets the lag to \<open>now\<close> minus the event's timestamp, and returns
  without a panic.
\<close>

theorem dml_build_error_still_sets_lag:
  assumes "Category event = ''DML''"
    and "\<exists>t\<in>set (PKValues event). \<exists>v\<in>set t. isl (BuildValue d v)"
  shows "lagSeconds (fst (processEvent d now event r)) = now - Timestamp event
         \<and> snd (processEvent d now event r) = None
         \<and> cache_calls (fst (processEvent d now event r)) = cache_calls r"
proof -
  from assms(2) have "isl (dml_loop d (PKValues event) [] [])"
    by (simp add: dml_loop_isl)
  then obtain err where loop: "dml_loop d (PKValues event) [] [] = Inl err"
    by (cases "dml_loop d (PKValues event) [] []") simp_all
  have body: "processEvent_body d now event r = then_lag now event (handleDmlEvent d event r)"
    using assms(1) by (simp add: processEvent_body_def)
  show ?thesis
    by (simp add: processEvent_def body handleDmlEvent_Inl [OF loop] then_lag_def set_lag_def
          handleInvalidationError_None)
qed

theorem dml_build_error_still_sets_lag_witness:
  "Category bad_dml_event = ''DML''
   \<and> (\<exists>t\<in>set (PKValues bad_dml_event). \<exists>v\<in>set t. isl (BuildValue quiet_deps v))
   \<and> lagSeconds NewRowcacheInvalidator = 0
   \<and> lagSeconds (fst (processEvent quiet_deps 100 bad_dml_event NewRowcacheInvalidator)) = 60"
proof -
  have c: "Category bad_dml_event = ''DML''"
    by (simp add: bad_dml_event_def dml_event_def event0_def)
  have h: "\<exists>t\<in>set (PKValues bad_dml_event). \<exists>v\<in>set t. isl (BuildValue quiet_deps v)"
    by (simp add: bad_dml_event_def dml_event_def event0_def quiet_deps_def)
  have t: "Timestamp bad_dml_event = 40"
    by (simp add: bad_dml_event_def dml_event_def event0_def)
  show ?thesis
    using c h dml_build_error_still_sets_lag [OF c h, of 100 NewRowcacheInvalidator]
    by (simp add: t NewRowcacheInvalidator_def)
qed

text \<open>
  C10. The key of a tuple comes from that tuple's own values only. Take a tuple \<open>t\<close> at
  any place in the event, after tuples \<open>pre\<close> that all built, and let the loop start with
  any buffer \<open>buf\<close> and any keys collected so far. Then the loop goes on after \<open>t\<close> with
  the key \<open>buildKey\<close> makes of exactly the typed values of \<open>t\<close> (appended when it is not
  empty), and with a buffer that holds exactly those values: nothing of \<open>buf\<close> or of
  \<open>pre\<close> is in it. The result of the loop does not depend on the buffer it starts with.
\<close>

theorem dml_key_depends_on_own_tuple:
  assumes "\<forall>u\<in>set pre. \<forall>v\<in>set u. BuildValue d v = Inr (f v)"
    and "\<forall>v\<in>set t. BuildValue d v = Inr (f v)"
  shows "dml_loop d (pre @ t # post) keys buf =
           dml_loop d post
             ((keys @ filter (\<lambda>k. k \<noteq> '''') (map (\<lambda>u. buildKey d (map f u)) pre)) @
              (if buildKey d (map f t) \<noteq> '''' then [buildKey d (map f t)] else []))
             (map f t)
         \<and> dml_loop d (pre @ t # post) keys buf = dml_loop d (pre @ t # post) keys buf'"
proof -
  have a: "dml_loop d (pre @ t # post) keys b =
             dml_loop d post
               ((keys @ filter (\<lambda>k. k \<noteq> '''') (map (\<lambda>u. buildKey d (map f u)) pre)) @
                (if buildKey d (map f t) \<noteq> '''' then [buildKey d (map f t)] else []))
               (map f t)" for b
    unfolding dml_loop_prefix [OF assms(1)] dml_loop_step [OF assms(2)] by simp
  show ?thesis
    unfolding a by simp
qed

theorem dml_key_depends_on_own_tuple_witness:
  "BuildValue quiet_deps ''1'' = Inr ''1'' \<and> BuildValue quiet_deps ''eu'' = Inr ''eu''
   \<and> BuildValue quiet_deps ''2'' = Inr ''2'' \<and> BuildValue quiet_deps ''us'' = Inr ''us''
   \<and> dml_loop quiet_deps ([[''1'', ''eu'']] @ [''2'', ''us''] # []) [] [''9'', ''9'', ''9''] =
       Inr [''1.eu'', ''2.us'']"
proof -
  have p: "\<forall>u\<in>set [[''1'', ''eu'']]. \<forall>v\<in>set u. BuildValue quiet_deps v = Inr v"
    by (simp add: quiet_deps_def)
  have t: "\<forall>v\<in>set [''2'', ''us'']. BuildValue quiet_deps v = Inr v"
    by (simp add: quiet_deps_def)
  show ?thesis
    using dml_key_depends_on_own_tuple [OF p t, of "[]" "[]" "[''9'', ''9'', ''9'']" "[]"]
    by (simp add: quiet_deps_def)
qed

subsection \<open>Dispatch of one event\<close>

lemma processEvent_TabletError:
  "processEvent_body d now event r = (r1, Some (PanicTabletError terr)) \<Longrightarrow>
   processEvent d now event r =
     (r1\<lparr>logs := logs r1 @ [Errorf_TabletError terr event],
         internalErrors := (internalErrors r1)
           (''Invalidation'' := internalErrors r1 ''Invalidation'' + 1)\<rparr>, None)"
  by (simp add: processEvent_def handleInvalidationError_TabletError)

lemma processEvent_Other:
  "processEvent_body d now event r = (r1, Some (PanicOther s)) \<Longrightarrow>
   processEvent d now event r =
     (r1\<lparr>logs := logs r1 @ [Errorf_UncaughtPanic event (PanicOther s) (tb_Stack 4)],
         internalErrors := (internalErrors r1)
           (''Panic'' := internalErrors r1 ''Panic'' + 1)\<rparr>, None)"
  by (simp add: processEvent_def handleInvalidationError_Other)

lemma sendReply_eq:
  "sendReply d now reply r = (fst (processEvent d now reply r), None, None)"
  using processEvent_snd [of d now reply r]
  by (cases "processEvent d now reply r") (simp add: sendReply_def)

lemma processEvent_body_unknown:
  "Category event \<notin> {''DDL'', ''DML'', ''ERR'', ''POS''} \<Longrightarrow>
   processEvent_body d now event r =
     (r\<lparr>logs := logs r @ [Errorf_UnknownEvent event],
        internalErrors := (internalErrors r)
          (''Invalidation'' := internalErrors r ''Invalidation'' + 1)\<rparr>, None)"
  by (simp add: processEvent_body_def internalErrors_Add_def log_append_def)

lemma processEvent_body_lag:
  "Category event \<in> {''DDL'', ''DML'', ''ERR'', ''POS''} \<Longrightarrow>
   lagSeconds (fst (processEvent_body d now event r)) =
     (if snd (processEvent_body d now event r) = None then now - Timestamp event
      else lagSeconds r)"
  by (auto simp: processEvent_body_def then_lag_lagSeconds then_lag_frame handleDmlEvent_frame
        call_qe_def log_append_def SetGTID_def)

lemma processEvent_known_lag:
  "Category event \<in> {''DDL'', ''DML'', ''ERR'', ''POS''} \<Longrightarrow>
   lagSeconds (fst (processEvent d now event r)) =
     (if snd (processEvent_body d now event r) = None then now - Timestamp event
      else lagSeconds r)"
  by (simp only: processEvent_def handleInvalidationError_frame processEvent_body_lag)

lemma sint_sub_in_range:
  fixes a b :: "64 word"
  assumes "- (2 ^ 63) \<le> sint a - sint b" and "sint a - sint b < 2 ^ 63"
  shows "sint (a - b) = sint a - sint b"
  using assms by (simp add: sint_word_ariths signed_take_bit_int_eq_self)

lemma processEvent_Nil:
  "processEvent_body d now event r = (r1, Some PanicNil) \<Longrightarrow>
   processEvent d now event r = (r1, None)"
  by (simp add: processEvent_def handleInvalidationError_Nil)

text \<open>
  C1, as the code has it. Whatever panics while \<^verbatim>\<open>processEvent\<close> handles an event is
  recovered by the deferred \<^verbatim>\<open>handleInvalidationError\<close>: \<^verbatim>\<open>processEvent\<close> always
  returns normally, and the stream callback returns nil with no panic in flight. When the
  body stopped in state \<open>r1\<close> with a panic that carries a \<^verbatim>\<open>*TabletError\<close>, the
  error is logged with the event and the \<^verbatim>\<open>Invalidation\<close> counter goes up by one;
  when it carries any other value that is not nil, the value is logged with the event and
  a stack trace and the \<^verbatim>\<open>Panic\<close> counter goes up by one; nothing else is changed by
  the handler. When the panic carries nil, the handler takes what \<^verbatim>\<open>recover()\<close>
  returns for no panic: the state stays as the body left it, with no log line and no
  count.
\<close>

theorem processEvent_recovers_every_panic:
  "snd (processEvent d now event r) = None
   \<and> sendReply d now event r = (fst (processEvent d now event r), None, None)
   \<and> (\<forall>r1 terr. processEvent_body d now event r = (r1, Some (PanicTabletError terr)) \<longrightarrow>
         fst (processEvent d now event r) =
           r1\<lparr>logs := logs r1 @ [Errorf_TabletError terr event],
              internalErrors := (internalErrors r1)
                (''Invalidation'' := internalErrors r1 ''Invalidation'' + 1)\<rparr>)
   \<and> (\<forall>r1 s. processEvent_body d now event r = (r1, Some (PanicOther s)) \<longrightarrow>
         fst (processEvent d now event r) =
           r1\<lparr>logs := logs r1 @ [Errorf_UncaughtPanic event (PanicOther s) (tb_Stack 4)],
              internalErrors := (internalErrors r1)
                (''Panic'' := internalErrors r1 ''Panic'' + 1)\<rparr>)
   \<and> (\<forall>r1. processEvent_body d now event r = (r1, Some PanicNil) \<longrightarrow>
         fst (processEvent d now event r) = r1)"
  by (simp add: processEvent_snd sendReply_eq processEvent_TabletError processEvent_Other
        processEvent_Nil)

theorem processEvent_recovers_every_panic_witness:
  "snd (processEvent_body failing_deps 100 ddl_event NewRowcacheInvalidator) =
     Some (PanicTabletError (NewTabletError (OtherErrorType 0) ''DDL is not understood''))
   \<and> snd (processEvent failing_deps 100 ddl_event NewRowcacheInvalidator) = None
   \<and> logs (fst (processEvent failing_deps 100 ddl_event NewRowcacheInvalidator)) =
       [Infof_DDL ''ALTER TABLE t ADD COLUMN x INT'',
        Errorf_TabletError (NewTabletError (OtherErrorType 0) ''DDL is not understood'') ddl_event]
   \<and> internalErrors (fst (processEvent failing_deps 100 ddl_event NewRowcacheInvalidator))
         ''Invalidation'' = 1
   \<and> snd (processEvent_body crashing_deps 100 dml_event NewRowcacheInvalidator) =
       Some (PanicOther ''runtime error: index out of range'')
   \<and> snd (processEvent crashing_deps 100 dml_event NewRowcacheInvalidator) = None
   \<and> logs (fst (processEvent crashing_deps 100 dml_event NewRowcacheInvalidator)) =
       [Errorf_UncaughtPanic dml_event (PanicOther ''runtime error: index out of range'')
          (tb_Stack 4)]
   \<and> internalErrors (fst (processEvent crashing_deps 100 dml_event NewRowcacheInvalidator))
         ''Panic'' = 1"
proof -
  have a: "processEvent_body failing_deps 100 ddl_event NewRowcacheInvalidator =
             (NewRowcacheInvalidator
                \<lparr>logs := [Infof_DDL ''ALTER TABLE t ADD COLUMN x INT''],
                 cache_calls := [InvalidateForDDL ''ALTER TABLE t ADD COLUMN x INT'']\<rparr>,
              Some (PanicTabletError (NewTabletError (OtherErrorType 0) ''DDL is not understood'')))"
    by (simp add: processEvent_body_def then_lag_def call_qe_def log_append_def
          failing_deps_def quiet_deps_def ddl_event_def event0_def NewRowcacheInvalidator_def)
  have b: "processEvent_body crashing_deps 100 dml_event NewRowcacheInvalidator =
             (NewRowcacheInvalidator
                \<lparr>cache_calls := [InvalidateForDml ''users'' [''1.eu'', ''2.us'']]\<rparr>,
              Some (PanicOther ''runtime error: index out of range''))"
    by (simp add: processEvent_body_def then_lag_def handleDmlEvent_def call_qe_def
          crashing_deps_def quiet_deps_def dml_event_def event0_def NewRowcacheInvalidator_def)
  from processEvent_recovers_every_panic [of failing_deps 100 ddl_event NewRowcacheInvalidator] a
  have "snd (processEvent failing_deps 100 ddl_event NewRowcacheInvalidator) = None"
    and "fst (processEvent failing_deps 100 ddl_event NewRowcacheInvalidator) =
       NewRowcacheInvalidator
         \<lparr>logs := [Infof_DDL ''ALTER TABLE t ADD COLUMN x INT''],
          cache_calls := [InvalidateForDDL ''ALTER TABLE t ADD COLUMN x INT''],
          logs := [Infof_DDL ''ALTER TABLE t ADD COLUMN x INT'',
            Errorf_TabletError (NewTabletError (OtherErrorType 0) ''DDL is not understood'')
              ddl_event],
          internalErrors := (\<lambda>_. 0)(''Invalidation'' := 1)\<rparr>"
    by (simp_all add: NewRowcacheInvalidator_def)
  moreover
  from processEvent_recovers_every_panic [of crashing_deps 100 dml_event NewRowcacheInvalidator] b
  have "snd (processEvent crashing_deps 100 dml_event NewRowcacheInvalidator) = None"
    and "fst (processEvent crashing_deps 100 dml_event NewRowcacheInvalidator) =
       NewRowcacheInvalidator
         \<lparr>cache_calls := [InvalidateForDml ''users'' [''1.eu'', ''2.us'']],
          logs := [Errorf_UncaughtPanic dml_event
            (PanicOther ''runtime error: index out of range'') (tb_Stack 4)],
          internalErrors := (\<lambda>_. 0)(''Panic'' := 1)\<rparr>"
    by (simp_all add: NewRowcacheInvalidator_def)
  ultimately show ?thesis
    using a b by simp
qed

text \<open>
  C1 as the specification words it fails: a call to the query engine that panics with nil
  is a panic whose recovered value is not a \<^verbatim>\<open>*TabletError\<close>, yet it is not logged
  and the \<^verbatim>\<open>Panic\<close> counter stays as it was. The only log line is the one
  \<^verbatim>\<open>processEvent\<close> wrote before the call.
\<close>

theorem nil_panic_neither_logged_nor_counted:
  "snd (processEvent_body nil_panic_deps 100 ddl_event NewRowcacheInvalidator) = Some PanicNil
   \<and> snd (processEvent nil_panic_deps 100 ddl_event NewRowcacheInvalidator) = None
   \<and> logs (fst (processEvent nil_panic_deps 100 ddl_event NewRowcacheInvalidator)) =
       [Infof_DDL ''ALTER TABLE t ADD COLUMN x INT'']
   \<and> internalErrors (fst (processEvent nil_panic_deps 100 ddl_event NewRowcacheInvalidator))
         ''Panic'' = 0
   \<and> internalErrors (fst (processEvent nil_panic_deps 100 ddl_event NewRowcacheInvalidator))
         ''Invalidation'' = 0"
  by (simp add: processEvent_def processEvent_body_def handleInvalidationError_def recover_def
        then_lag_def call_qe_def log_append_def internalErrors_Add_def nil_panic_deps_def
        quiet_deps_def ddl_event_def event0_def NewRowcacheInvalidator_def)

text \<open>
  C5. Dispatching a \<^verbatim>\<open>POS\<close> event sets the tracked position to the event's GTID and
  makes no call to the query engine; dispatching an event of any other category, known or
  not, leaves the tracked position as it was.
\<close>

theorem only_POS_moves_position:
  "(Category event = ''POS'' \<longrightarrow>
      GetGTID (fst (processEvent d now event r)) = GTIDField event
      \<and> cache_calls (fst (processEvent d now event r)) = cache_calls r)
   \<and> (Category event \<noteq> ''POS'' \<longrightarrow>
        GetGTID (fst (processEvent d now event r)) = GetGTID r)"
proof -
  have "cache_calls (fst (processEvent d now event r)) = cache_calls r"
    if "Category event = ''POS''"
    using that
    by (simp add: processEvent_def handleInvalidationError_frame processEvent_body_def
          then_lag_frame SetGTID_def)
  then show ?thesis
    by (simp add: GetGTID_def processEvent_gtid)
qed

theorem only_POS_moves_position_witness:
  "Category pos_event = ''POS''
   \<and> GetGTID NewRowcacheInvalidator = None
   \<and> GetGTID (fst (processEvent quiet_deps 100 pos_event NewRowcacheInvalidator)) =
       Some ''41983-7''
   \<and> cache_calls (fst (processEvent quiet_deps 100 pos_event NewRowcacheInvalidator)) = []
   \<and> Category ddl_event \<noteq> ''POS''
   \<and> GetGTID (fst (processEvent quiet_deps 100 ddl_event running_rci)) = Some ''41983-1''"
proof -
  have p: "Category pos_event = ''POS''" "GTIDField pos_event = Some ''41983-7''"
    by (simp_all add: pos_event_def event0_def)
  have c: "Category ddl_event \<noteq> ''POS''"
    by (simp add: ddl_event_def event0_def)
  have g: "GetGTID NewRowcacheInvalidator = None" "GetGTID running_rci = Some ''41983-1''"
    "cache_calls NewRowcacheInvalidator = []"
    by (simp_all add: GetGTID_def running_rci_def NewRowcacheInvalidator_def)
  show ?thesis
    using only_POS_moves_position [of pos_event quiet_deps 100 NewRowcacheInvalidator]
      only_POS_moves_position [of ddl_event quiet_deps 100 running_rci]
    by (simp add: p c g)
qed

text \<open>
  C8, as the code has it. An event whose category is none of \<^verbatim>\<open>DDL\<close>, \<^verbatim>\<open>DML\<close>,
  \<^verbatim>\<open>ERR\<close>, \<^verbatim>\<open>POS\<close> is logged as unknown and counted under \<^verbatim>\<open>Invalidation\<close>,
  and nothing else changes: no call to the query engine, no new position, no new lag. An
  event of a known category sets the lag to \<open>now\<close> minus its timestamp when its handling
  does not panic; the subtraction is int64, and when the difference fits it is the signed
  difference, negative or not. When the handling panics, the last line of
  \<^verbatim>\<open>processEvent\<close> is not reached and the lag keeps its old value.
\<close>

theorem unknown_category_and_lag:
  "(Category event \<notin> {''DDL'', ''DML'', ''ERR'', ''POS''} \<longrightarrow>
      processEvent d now event r =
        (r\<lparr>logs := logs r @ [Errorf_UnknownEvent event],
           internalErrors := (internalErrors r)
             (''Invalidation'' := internalErrors r ''Invalidation'' + 1)\<rparr>, None))
   \<and> (Category event \<in> {''DDL'', ''DML'', ''ERR'', ''POS''}
        \<and> snd (processEvent_body d now event r) = None \<longrightarrow>
        lagSeconds (fst (processEvent d now event r)) = now - Timestamp event
        \<and> (- (2 ^ 63) \<le> sint now - sint (Timestamp event)
             \<and> sint now - sint (Timestamp event) < 2 ^ 63 \<longrightarrow>
           sint (lagSeconds (fst (processEvent d now event r))) =
             sint now - sint (Timestamp event)))
   \<and> (Category event \<in> {''DDL'', ''DML'', ''ERR'', ''POS''}
        \<and> snd (processEvent_body d now event r) \<noteq> None \<longrightarrow>
        lagSeconds (fst (processEvent d now event r)) = lagSeconds r)"
proof -
  have u: "processEvent d now event r =
        (r\<lparr>logs := logs r @ [Errorf_UnknownEvent event],
           internalErrors := (internalErrors r)
             (''Invalidation'' := internalErrors r ''Invalidation'' + 1)\<rparr>, None)"
    if "Category event \<notin> {''DDL'', ''DML'', ''ERR'', ''POS''}"
    by (simp add: processEvent_def processEvent_body_unknown [OF that]
          handleInvalidationError_None)
  have k: "lagSeconds (fst (processEvent d now event r)) =
           (if snd (processEvent_body d now event r) = None then now - Timestamp event
            else lagSeconds r)"
    if "Category event \<in> {''DDL'', ''DML'', ''ERR'', ''POS''}"
    by (rule processEvent_known_lag [OF that])
  show ?thesis
    using u k sint_sub_in_range [of now "Timestamp event"] by auto
qed

theorem unknown_category_and_lag_witness:
  "Category unknown_event \<notin> {''DDL'', ''DML'', ''ERR'', ''POS''}
   \<and> processEvent quiet_deps 100 unknown_event NewRowcacheInvalidator =
       (NewRowcacheInvalidator
          \<lparr>logs := [Errorf_UnknownEvent unknown_event],
           internalErrors := (\<lambda>_. 0)(''Invalidation'' := 1)\<rparr>, None)
   \<and> Category pos_event \<in> {''DDL'', ''DML'', ''ERR'', ''POS''}
   \<and> snd (processEvent_body quiet_deps 10 pos_event NewRowcacheInvalidator) = None
   \<and> sint (lagSeconds (fst (processEvent quiet_deps 10 pos_event NewRowcacheInvalidator))) = - 30
   \<and> Category ddl_event \<in> {''DDL'', ''DML'', ''ERR'', ''POS''}
   \<and> snd (processEvent_body failing_deps 100 ddl_event running_rci) \<noteq> None
   \<and> lagSeconds (fst (processEvent failing_deps 100 ddl_event running_rci)) = 0"
proof -
  have c: "Category unknown_event = ''BEGIN''" "Category pos_event = ''POS''"
    "Category ddl_event = ''DDL''"
    by (simp_all add: unknown_event_def pos_event_def ddl_event_def event0_def)
  have t: "Timestamp pos_event = 40"
    by (simp add: pos_event_def event0_def)
  have b: "snd (processEvent_body quiet_deps 10 pos_event NewRowcacheInvalidator) = None"
    "snd (processEvent_body failing_deps 100 ddl_event running_rci) \<noteq> None"
    by (simp_all add: processEvent_body_def then_lag_def call_qe_def c failing_deps_def
          quiet_deps_def)
  have l: "lagSeconds running_rci = 0"
    by (simp add: running_rci_def NewRowcacheInvalidator_def)
  have s: "sint (10 :: 64 word) - sint (40 :: 64 word) = - 30"
    by simp
  have w1: "processEvent quiet_deps 100 unknown_event NewRowcacheInvalidator =
       (NewRowcacheInvalidator
          \<lparr>logs := [Errorf_UnknownEvent unknown_event],
           internalErrors := (\<lambda>_. 0)(''Invalidation'' := 1)\<rparr>, None)"
    using unknown_category_and_lag [of unknown_event quiet_deps 100 NewRowcacheInvalidator]
    by (simp add: c NewRowcacheInvalidator_def)
  have w2: "sint (lagSeconds (fst (processEvent quiet_deps 10 pos_event NewRowcacheInvalidator)))
              = - 30"
    using unknown_category_and_lag [of pos_event quiet_deps 10 NewRowcacheInvalidator] b(1)
    by (simp add: c t s)
  have w3: "lagSeconds (fst (processEvent failing_deps 100 ddl_event running_rci)) = 0"
    using unknown_category_and_lag [of ddl_event failing_deps 100 running_rci] b(2)
    by (simp add: c l)
  show ?thesis
    using w1 w2 w3 b by (simp add: c)
qed

text \<open>
  C8 as the specification words it fails: a \<^verbatim>\<open>DDL\<close> event is of a known category,
  yet when \<^verbatim>\<open>InvalidateForDDL\<close> panics the lag is not set to \<open>now\<close> minus the
  timestamp (here 100 - 40) but stays 0.
\<close>

theorem known_category_lag_not_set_on_panic:
  "Category ddl_event \<in> {''DDL'', ''DML'', ''ERR'', ''POS''}
   \<and> lagSeconds (fst (processEvent failing_deps 100 ddl_event NewRowcacheInvalidator)) = 0
   \<and> lagSeconds (fst (processEvent failing_deps 100 ddl_event NewRowcacheInvalidator)) \<noteq>
       100 - Timestamp ddl_event"
  by (simp add: processEvent_def processEvent_body_def handleInvalidationError_def recover_def
        then_lag_def call_qe_def log_append_def internalErrors_Add_def failing_deps_def
        quiet_deps_def ddl_event_def event0_def NewRowcacheInvalidator_def)

subsection \<open>The retry loop\<close>

lemma deliver_end:
  "snd (deliver d replies ending r) =
     (case ending of
        EndNil \<Rightarrow> (None, None)
      | EndError e \<Rightarrow> (None, Some (StreamError e))
      | EndPanic x \<Rightarrow> (Some x, None))"
  by (induction replies arbitrary: r) (auto simp: sendReply_eq split: stream_end.splits)

lemma deliver_frame:
  "stream_opens (fst (deliver d replies ending r)) = stream_opens r"
  "sleeps (fst (deliver d replies ending r)) = sleeps r"
  by (induction replies arbitrary: r)
    (auto simp: sendReply_eq processEvent_frame split: stream_end.splits)

lemma deliver_gtid:
  "gtid (fst (deliver d replies ending r)) = position_after (gtid r) replies"
  by (induction replies arbitrary: r)
    (auto simp: sendReply_eq processEvent_gtid split: stream_end.splits)

lemma run_attempt_fst:
  "fst (run_attempt d src n r) =
     fst (deliver d (fst (src n (gtid r))) (snd (src n (gtid r)))
            (r\<lparr>stream_opens := stream_opens r @ [gtid r]\<rparr>))"
  by (auto simp: run_attempt_def evs_Stream_def GetGTID_def recover_def
        split: prod.splits option.splits)

lemma run_attempt_snd:
  "snd (run_attempt d src n r) =
     (case snd (src n (gtid r)) of
        EndNil \<Rightarrow> None
      | EndError e \<Rightarrow> Some (StreamError e)
      | EndPanic x \<Rightarrow>
          if x = PanicNil then None else Some (UncaughtPanicError x (tb_Stack 4)))"
proof -
  obtain replies ending where s: "src n (gtid r) = (replies, ending)"
    by (cases "src n (gtid r)")
  obtain r' p e where dl:
    "deliver d replies ending (r\<lparr>stream_opens := stream_opens r @ [gtid r]\<rparr>) = (r', p, e)"
    by (cases "deliver d replies ending (r\<lparr>stream_opens := stream_opens r @ [gtid r]\<rparr>)")
  from deliver_end [of d replies ending "r\<lparr>stream_opens := stream_opens r @ [gtid r]\<rparr>"] dl
  have "(p, e) =
     (case ending of
        EndNil \<Rightarrow> (None, None)
      | EndError e \<Rightarrow> (None, Some (StreamError e))
      | EndPanic x \<Rightarrow> (Some x, None))"
    by simp
  with s dl show ?thesis
    by (cases ending) (simp_all add: run_attempt_def evs_Stream_def GetGTID_def recover_def)
qed

lemma run_attempt_frame:
  "stream_opens (fst (run_attempt d src n r)) = stream_opens r @ [gtid r]"
  "sleeps (fst (run_attempt d src n r)) = sleeps r"
  "gtid (fst (run_attempt d src n r)) = position_after (gtid r) (fst (src n (gtid r)))"
  by (simp_all add: run_attempt_fst deliver_frame deliver_gtid)

lemma run_Suc_nil:
  "snd (run_attempt d src n r) = None \<Longrightarrow>
   run (Suc fuel) d src n r =
     Some ((fst (run_attempt d src n r))
             \<lparr>logs := logs (fst (run_attempt d src n r)) @ [Infof_Stopped]\<rparr>)"
  by (cases "run_attempt d src n r") (simp add: log_append_def)

lemma run_Suc_error:
  "snd (run_attempt d src n r) = Some err \<Longrightarrow>
   run (Suc fuel) d src n r =
     run fuel d src (Suc n)
       ((fst (run_attempt d src n r))
          \<lparr>logs := logs (fst (run_attempt d src n r)) @ [Errorf_Retrying err],
           internalErrors := (internalErrors (fst (run_attempt d src n r)))
             (''Invalidation'' :=
                internalErrors (fst (run_attempt d src n r)) ''Invalidation'' + 1),
           sleeps := sleeps (fst (run_attempt d src n r)) @ [1]\<rparr>)"
  by (cases "run_attempt d src n r")
    (simp add: log_append_def internalErrors_Add_def time_Sleep_def)

lemma run_Some_trace:
  "run fuel d src n r = Some r' \<Longrightarrow>
   \<exists>k<fuel. sleeps r' = sleeps r @ replicate k 1
     \<and> length (stream_opens r') = length (stream_opens r) + Suc k
     \<and> last (logs r') = Infof_Stopped"
proof (induction fuel arbitrary: n r)
  case 0
  then show ?case by simp
next
  case (Suc fuel)
  show ?case
  proof (cases "snd (run_attempt d src n r)")
    case None
    from Suc.prems run_Suc_nil [OF None, of fuel]
    have "r' = (fst (run_attempt d src n r))
                 \<lparr>logs := logs (fst (run_attempt d src n r)) @ [Infof_Stopped]\<rparr>"
      by simp
    then have "sleeps r' = sleeps r @ replicate 0 1
        \<and> length (stream_opens r') = length (stream_opens r) + Suc 0
        \<and> last (logs r') = Infof_Stopped"
      by (simp add: run_attempt_frame)
    then show ?thesis by blast
  next
    case (Some err)
    let ?r1 = "fst (run_attempt d src n r)"
    let ?r2 = "?r1\<lparr>logs := logs ?r1 @ [Errorf_Retrying err],
           internalErrors := (internalErrors ?r1)
             (''Invalidation'' := internalErrors ?r1 ''Invalidation'' + 1),
           sleeps := sleeps ?r1 @ [1]\<rparr>"
    from Suc.prems run_Suc_error [OF Some, of fuel]
    have "run fuel d src (Suc n) ?r2 = Some r'"
      by simp
    from Suc.IH [OF this] obtain k where k: "k < fuel"
      "sleeps r' = sleeps ?r2 @ replicate k 1"
      "length (stream_opens r') = length (stream_opens ?r2) + Suc k"
      "last (logs r') = Infof_Stopped"
      by blast
    then have "Suc k < Suc fuel \<and> sleeps r' = sleeps r @ replicate (Suc k) 1
        \<and> length (stream_opens r') = length (stream_opens r) + Suc (Suc k)
        \<and> last (logs r') = Infof_Stopped"
      by (simp add: run_attempt_frame)
    then show ?thesis by blast
  qed
qed

text \<open>
  C4. One pass of the loop opens the stream at the position tracked at that moment, and
  leaves behind the position of the last \<^verbatim>\<open>POS\<close> event the session delivered. The
  error of the pass follows from how the stream call ended: nil when it returned nil, the
  returned error when it returned one, and an error made of the panic value and the stack
  when it panicked (a panic with a nil value apart, which \<^verbatim>\<open>recover()\<close> hands over as
  nil so that the error stays nil). When the error is nil, \<^verbatim>\<open>run\<close> logs that it
  stopped and returns. Otherwise \<^verbatim>\<open>run\<close> logs the error, adds one to the
  \<^verbatim>\<open>Invalidation\<close> counter, sleeps one second and goes round again, and that next
  pass opens the stream at the position the failed one left behind. Whenever \<^verbatim>\<open>run\<close>
  returns, it slept one second after each failed pass, opened the stream once more than
  it slept, and its last log line says that it stopped.
\<close>

theorem run_retries_from_tracked_position:
  "stream_opens (fst (run_attempt d src n r)) = stream_opens r @ [GetGTID r]
   \<and> GetGTID (fst (run_attempt d src n r)) =
       position_after (GetGTID r) (fst (src n (GetGTID r)))
   \<and> snd (run_attempt d src n r) =
       (case snd (src n (GetGTID r)) of
          EndNil \<Rightarrow> None
        | EndError e \<Rightarrow> Some (StreamError e)
        | EndPanic x \<Rightarrow>
            if x = PanicNil then None else Some (UncaughtPanicError x (tb_Stack 4)))
   \<and> (snd (run_attempt d src n r) = None \<longrightarrow>
        run (Suc fuel) d src n r =
          Some ((fst (run_attempt d src n r))
                  \<lparr>logs := logs (fst (run_attempt d src n r)) @ [Infof_Stopped]\<rparr>))
   \<and> (\<forall>err. snd (run_attempt d src n r) = Some err \<longrightarrow>
        (let r1 = fst (run_attempt d src n r);
             r2 = r1\<lparr>logs := logs r1 @ [Errorf_Retrying err],
                     internalErrors := (internalErrors r1)
                       (''Invalidation'' := internalErrors r1 ''Invalidation'' + 1),
                     sleeps := sleeps r1 @ [1]\<rparr>
         in run (Suc fuel) d src n r = run fuel d src (Suc n) r2
            \<and> stream_opens (fst (run_attempt d src (Suc n) r2)) =
                stream_opens r @ [GetGTID r, GetGTID r1]))
   \<and> (\<forall>r'. run fuel d src n r = Some r' \<longrightarrow>
        (\<exists>k<fuel. sleeps r' = sleeps r @ replicate k 1
           \<and> length (stream_opens r') = length (stream_opens r) + Suc k
           \<and> last (logs r') = Infof_Stopped))"
proof -
  have a: "stream_opens (fst (run_attempt d src n r)) = stream_opens r @ [GetGTID r]"
    by (simp add: GetGTID_def run_attempt_frame)
  have b: "GetGTID (fst (run_attempt d src n r)) =
       position_after (GetGTID r) (fst (src n (GetGTID r)))"
    by (simp add: GetGTID_def run_attempt_frame)
  have l: "snd (run_attempt d src n r) =
       (case snd (src n (GetGTID r)) of
          EndNil \<Rightarrow> None
        | EndError e \<Rightarrow> Some (StreamError e)
        | EndPanic x \<Rightarrow>
            if x = PanicNil then None else Some (UncaughtPanicError x (tb_Stack 4)))"
    by (simp only: GetGTID_def run_attempt_snd)
  have c: "run (Suc fuel) d src n r =
          Some ((fst (run_attempt d src n r))
                  \<lparr>logs := logs (fst (run_attempt d src n r)) @ [Infof_Stopped]\<rparr>)"
    if "snd (run_attempt d src n r) = None"
    by (rule run_Suc_nil [OF that])
  have e: "(let r1 = fst (run_attempt d src n r);
             r2 = r1\<lparr>logs := logs r1 @ [Errorf_Retrying err],
                     internalErrors := (internalErrors r1)
                       (''Invalidation'' := internalErrors r1 ''Invalidation'' + 1),
                     sleeps := sleeps r1 @ [1]\<rparr>
         in run (Suc fuel) d src n r = run fuel d src (Suc n) r2
            \<and> stream_opens (fst (run_attempt d src (Suc n) r2)) =
                stream_opens r @ [GetGTID r, GetGTID r1])"
    if "snd (run_attempt d src n r) = Some err" for err
    using run_Suc_error [OF that, of fuel]
    by (simp add: Let_def run_attempt_frame GetGTID_def del: run.simps)
  have f: "\<exists>k<fuel. sleeps r' = sleeps r @ replicate k 1
           \<and> length (stream_opens r') = length (stream_opens r) + Suc k
           \<and> last (logs r') = Infof_Stopped"
    if "run fuel d src n r = Some r'" for r'
    by (rule run_Some_trace [OF that])
  from a b l c e f show ?thesis by blast
qed

theorem run_retries_from_tracked_position_witness:
  "snd (flaky_source 0 (GetGTID NewRowcacheInvalidator)) = EndError ''connection lost''
   \<and> snd (run_attempt quiet_deps flaky_source 0 NewRowcacheInvalidator) =
       Some (StreamError ''connection lost'')
   \<and> stream_opens (fst (run_attempt quiet_deps flaky_source 0 NewRowcacheInvalidator)) = [None]
   \<and> GetGTID (fst (run_attempt quiet_deps flaky_source 0 NewRowcacheInvalidator)) =
       Some ''41983-7''
   \<and> (\<exists>r'. run (Suc (Suc 0)) quiet_deps flaky_source 0 NewRowcacheInvalidator = Some r'
         \<and> stream_opens r' = [None, Some ''41983-7'']
         \<and> sleeps r' = [1]
         \<and> internalErrors r' ''Invalidation'' = 1
         \<and> last (logs r') = Infof_Stopped)
   \<and> snd (crashing_source 0 (GetGTID NewRowcacheInvalidator)) =
       EndPanic (PanicOther ''runtime error: nil map'')
   \<and> snd (run_attempt quiet_deps crashing_source 0 NewRowcacheInvalidator) =
       Some (UncaughtPanicError (PanicOther ''runtime error: nil map'') (tb_Stack 4))
   \<and> (\<exists>r'. run (Suc (Suc 0)) quiet_deps crashing_source 0 NewRowcacheInvalidator = Some r'
         \<and> stream_opens r' = [None, Some ''41983-7'']
         \<and> sleeps r' = [1]
         \<and> logs r' =
             [Errorf_Retrying
                (UncaughtPanicError (PanicOther ''runtime error: nil map'') (tb_Stack 4)),
              Infof_Stopped])"
proof -
  let ?r1 = "fst (run_attempt quiet_deps flaky_source 0 NewRowcacheInvalidator)"
  let ?r2 = "?r1\<lparr>logs := logs ?r1 @ [Errorf_Retrying (StreamError ''connection lost'')],
                 internalErrors := (internalErrors ?r1)
                   (''Invalidation'' := internalErrors ?r1 ''Invalidation'' + 1),
                 sleeps := sleeps ?r1 @ [1]\<rparr>"
  let ?r3 = "fst (run_attempt quiet_deps flaky_source (Suc 0) ?r2)"
  have g0: "GetGTID NewRowcacheInvalidator = None" "stream_opens NewRowcacheInvalidator = []"
    "sleeps NewRowcacheInvalidator = []"
    by (simp_all add: GetGTID_def NewRowcacheInvalidator_def)
  have e0: "snd (flaky_source 0 None) = EndError ''connection lost''"
    by (simp add: flaky_source_def)
  have p: "position_after None (fst (flaky_source 0 None)) = Some ''41983-7''"
    by (simp add: flaky_source_def pos_event_def event0_def)
  have i1: "internalErrors ?r1 ''Invalidation'' = 0"
    by (simp add: run_attempt_fst flaky_source_def sendReply_eq processEvent_def
          processEvent_body_def handleInvalidationError_def recover_def then_lag_def set_lag_def
          SetGTID_def pos_event_def event0_def NewRowcacheInvalidator_def)
  note w1 = run_retries_from_tracked_position
    [of quiet_deps flaky_source 0 NewRowcacheInvalidator "Suc 0"]
  from w1 have s0: "snd (run_attempt quiet_deps flaky_source 0 NewRowcacheInvalidator) =
     Some (StreamError ''connection lost'')"
    by (simp add: g0 e0)
  from w1 s0 have o1: "stream_opens ?r1 = [None]" and g1: "GetGTID ?r1 = Some ''41983-7''"
    and step: "run (Suc (Suc 0)) quiet_deps flaky_source 0 NewRowcacheInvalidator =
                 run (Suc 0) quiet_deps flaky_source (Suc 0) ?r2"
    and o2: "stream_opens ?r3 = [None, Some ''41983-7'']"
    by (simp_all add: g0 p Let_def)
  note w2 = run_retries_from_tracked_position [of quiet_deps flaky_source "Suc 0" ?r2 0]
  from w2 have s1: "snd (run_attempt quiet_deps flaky_source (Suc 0) ?r2) = None"
    by (simp add: flaky_source_def)
  from w2 s1 have fin: "run (Suc 0) quiet_deps flaky_source (Suc 0) ?r2 =
      Some (?r3\<lparr>logs := logs ?r3 @ [Infof_Stopped]\<rparr>)"
    by simp
  have sl: "sleeps ?r3 = [1]"
    by (simp add: run_attempt_frame g0)
  have i3: "internalErrors ?r3 ''Invalidation'' = 1"
    using i1
    by (simp add: run_attempt_fst flaky_source_def sendReply_eq processEvent_def
          processEvent_body_def handleInvalidationError_def recover_def then_lag_def set_lag_def
          call_qe_def log_append_def quiet_deps_def ddl_event_def event0_def)
  let ?c1 = "fst (run_attempt quiet_deps crashing_source 0 NewRowcacheInvalidator)"
  let ?cerr = "UncaughtPanicError (PanicOther ''runtime error: nil map'') (tb_Stack 4)"
  let ?c2 = "?c1\<lparr>logs := logs ?c1 @ [Errorf_Retrying ?cerr],
                 internalErrors := (internalErrors ?c1)
                   (''Invalidation'' := internalErrors ?c1 ''Invalidation'' + 1),
                 sleeps := sleeps ?c1 @ [1]\<rparr>"
  let ?c3 = "fst (run_attempt quiet_deps crashing_source (Suc 0) ?c2)"
  have ce0: "snd (crashing_source 0 None) = EndPanic (PanicOther ''runtime error: nil map'')"
    by (simp add: crashing_source_def)
  have cp: "position_after None (fst (crashing_source 0 None)) = Some ''41983-7''"
    by (simp add: crashing_source_def pos_event_def event0_def)
  have cl1: "logs ?c1 = []"
    by (simp add: run_attempt_fst crashing_source_def sendReply_eq processEvent_def
          processEvent_body_def handleInvalidationError_def recover_def then_lag_def set_lag_def
          SetGTID_def pos_event_def event0_def NewRowcacheInvalidator_def)
  note v1 = run_retries_from_tracked_position
    [of quiet_deps crashing_source 0 NewRowcacheInvalidator "Suc 0"]
  from v1 have cs0: "snd (run_attempt quiet_deps crashing_source 0 NewRowcacheInvalidator) =
     Some ?cerr"
    by (simp add: g0 ce0)
  from v1 cs0 have cstep: "run (Suc (Suc 0)) quiet_deps crashing_source 0 NewRowcacheInvalidator =
                 run (Suc 0) quiet_deps crashing_source (Suc 0) ?c2"
    and co2: "stream_opens ?c3 = [None, Some ''41983-7'']"
    by (simp_all add: g0 cp Let_def)
  note v2 = run_retries_from_tracked_position [of quiet_deps crashing_source "Suc 0" ?c2 0]
  from v2 have cs1: "snd (run_attempt quiet_deps crashing_source (Suc 0) ?c2) = None"
    by (simp add: crashing_source_def)
  from v2 cs1 have cfin: "run (Suc 0) quiet_deps crashing_source (Suc 0) ?c2 =
      Some (?c3\<lparr>logs := logs ?c3 @ [Infof_Stopped]\<rparr>)"
    by simp
  have csl: "sleeps ?c3 = [1]"
    by (simp add: run_attempt_frame g0)
  have cl3: "logs ?c3 = [Errorf_Retrying ?cerr]"
    using cl1 by (simp add: run_attempt_fst crashing_source_def)
  show ?thesis
    using s0 o1 g1 step fin o2 sl i3 cs0 cstep cfin co2 csl cl3
    by (simp add: g0 e0 ce0)
qed

subsection \<open>Open and Close\<close>

text \<open>
  C6. When the master-status query fails, or the binlog path is empty, \<^verbatim>\<open>Open\<close> panics
  with a \<^verbatim>\<open>FATAL\<close> \<^verbatim>\<open>*TabletError\<close> and the invalidator is exactly as before: no
  worker was launched and the service state did not change.
\<close>

theorem Open_aborts_on_misconfiguration:
  assumes "isl (MasterStatus m) \<or> BinLogPath m = ''''"
  shows "\<exists>msg. Open name m r = (r, Some (PanicTabletError (NewTabletError FATAL msg)))
           \<and> launched (fst (Open name m r)) = launched r
           \<and> svm (fst (Open name m r)) = svm r"
  using assms by (cases "MasterStatus m") (auto simp: Open_def)

theorem Open_aborts_on_misconfiguration_witness:
  "isl (MasterStatus mysqld_down)
   \<and> Open ''vt_test'' mysqld_down NewRowcacheInvalidator =
       (NewRowcacheInvalidator, Some (PanicTabletError (NewTabletError FATAL
          ''Rowcache invalidator aborting: cannot determine replication position: connection refused'')))
   \<and> BinLogPath mysqld_no_binlog = ''''
   \<and> Open ''vt_test'' mysqld_no_binlog NewRowcacheInvalidator =
       (NewRowcacheInvalidator, Some (PanicTabletError (NewTabletError FATAL
          ''Rowcache invalidator aborting: binlog path not specified'')))
   \<and> launched NewRowcacheInvalidator = 0"
proof -
  have a: "isl (MasterStatus mysqld_down)" and b: "BinLogPath mysqld_no_binlog = ''''"
    by (simp_all add: mysqld_down_def mysqld_no_binlog_def mysqld_ok_def)
  have a': "isl (MasterStatus mysqld_down) \<or> BinLogPath mysqld_down = ''''"
    using a by simp
  have b': "isl (MasterStatus mysqld_no_binlog) \<or> BinLogPath mysqld_no_binlog = ''''"
    using b by simp
  show ?thesis
    using a b Open_aborts_on_misconfiguration [OF a', of "''vt_test''" NewRowcacheInvalidator]
      Open_aborts_on_misconfiguration [OF b', of "''vt_test''" NewRowcacheInvalidator]
    by (simp add: Open_def mysqld_down_def mysqld_no_binlog_def mysqld_ok_def
          NewRowcacheInvalidator_def)
qed

text \<open>
  C7, as the code has it. \<^verbatim>\<open>Open\<close> asks for the master status and looks at the binlog
  path before it asks the service manager whether the service is running. So on a running
  service \<^verbatim>\<open>Open\<close> logs that the invalidator is already running and returns, when the
  query succeeds and the path is set; in every case it changes nothing but the log: no
  second worker, and the running one keeps its streamer, position and state. \<^verbatim>\<open>Close\<close>
  without an event streamer logs that the rowcache is not running and returns, with no
  call to \<^verbatim>\<open>evs.Stop\<close> or to the blocking \<^verbatim>\<open>svm.Stop\<close>.
\<close>

theorem Open_while_running_and_Close_while_stopped:
  "(svm r = SERVICE_RUNNING \<longrightarrow>
      (\<forall>rp. MasterStatus m = Inr rp \<and> BinLogPath m \<noteq> '''' \<longrightarrow>
         Open name m r = (r\<lparr>logs := logs r @ [Infof_AlreadyRunning]\<rparr>, None))
      \<and> (fst (Open name m r))\<lparr>logs := logs r\<rparr> = r
      \<and> launched (fst (Open name m r)) = launched r)
   \<and> (evs r = None \<longrightarrow>
        Close r = r\<lparr>logs := logs r @ [Infof_NotRunning]\<rparr>
        \<and> svm_Stop_calls (Close r) = svm_Stop_calls r
        \<and> evs_Stop_calls (Close r) = evs_Stop_calls r)"
  by (cases "MasterStatus m")
    (auto simp: Open_def svm_Go_def Close_def log_append_def)

theorem Open_while_running_and_Close_while_stopped_witness:
  "svm running_rci = SERVICE_RUNNING
   \<and> BinLogPath mysqld_ok \<noteq> ''''
   \<and> \<not> isl (MasterStatus mysqld_ok)
   \<and> Open ''vt_test'' mysqld_ok running_rci =
       (running_rci\<lparr>logs := [Infof_AlreadyRunning]\<rparr>, None)
   \<and> launched (fst (Open ''vt_test'' mysqld_ok running_rci)) = 1
   \<and> evs NewRowcacheInvalidator = None
   \<and> Close NewRowcacheInvalidator = NewRowcacheInvalidator\<lparr>logs := [Infof_NotRunning]\<rparr>
   \<and> svm_Stop_calls (Close NewRowcacheInvalidator) = 0"
proof -
  have a: "svm running_rci = SERVICE_RUNNING" "logs running_rci = []" "launched running_rci = 1"
    by (simp_all add: running_rci_def NewRowcacheInvalidator_def)
  have b: "BinLogPath mysqld_ok \<noteq> ''''" "\<not> isl (MasterStatus mysqld_ok)"
    "MasterStatus mysqld_ok = Inr \<lparr>MasterLogFile = ''vt-bin.000001'', MasterLogPosition = 107,
                           MasterLogGTIDField = Some ''41983-1''\<rparr>"
    by (simp_all add: mysqld_ok_def)
  have c: "evs NewRowcacheInvalidator = None" "logs NewRowcacheInvalidator = []"
    "svm_Stop_calls NewRowcacheInvalidator = 0"
    by (simp_all add: NewRowcacheInvalidator_def)
  show ?thesis
    using Open_while_running_and_Close_while_stopped [of running_rci mysqld_ok "''vt_test''"]
      Open_while_running_and_Close_while_stopped [of NewRowcacheInvalidator mysqld_ok "''vt_test''"]
    by (simp add: a b c)
qed

text \<open>
  C7 as the specification words it fails: on a running service whose database does not
  answer the master-status query, \<^verbatim>\<open>Open\<close> does not log and return but panics.
\<close>

theorem Open_while_running_panics_when_status_fails:
  "svm running_rci = SERVICE_RUNNING
   \<and> Open ''vt_test'' mysqld_down running_rci =
       (running_rci, Some (PanicTabletError (NewTabletError FATAL
          ''Rowcache invalidator aborting: cannot determine replication position: connection refused'')))
   \<and> snd (Open ''vt_test'' mysqld_down running_rci) \<noteq> None
   \<and> logs (fst (Open ''vt_test'' mysqld_down running_rci)) = logs running_rci"
  by (simp add: Open_def mysqld_down_def mysqld_ok_def running_rci_def
        NewRowcacheInvalidator_def)

end
